theory Spec2Isabelle
  imports Main "HOL-Library.Multiset"
begin

section \<open>Python strings\<close>

text \<open>
  A Python \<open>str\<close> is a sequence of Unicode code points: \<open>len\<close>, slicing, \<open>split\<close>,
  \<open>startswith\<close> and \<open>endswith\<close> all count code points.  A string is therefore a
  list of code points, each a natural number; \<open>ascii\<close> turns an ASCII literal into
  such a list.
\<close>

type_synonym ustr = "nat list"

definition ascii :: "string \<Rightarrow> ustr" where
  "ascii s = map of_char s"

definition startswith :: "ustr \<Rightarrow> ustr \<Rightarrow> bool" where
  "startswith s pre = (take (length pre) s = pre)"

definition endswith :: "ustr \<Rightarrow> ustr \<Rightarrow> bool" where
  "endswith s suf = (length suf \<le> length s \<and> drop (length s - length suf) s = suf)"

text \<open>\<open>sep in s\<close> for a one-character \<open>sep\<close>.\<close>

definition contains :: "nat \<Rightarrow> ustr \<Rightarrow> bool" where
  "contains sep s = (sep \<in> set s)"

text \<open>\<open>s.split(sep)\<close> for a one-character separator: \<open>''.split('/')\<close> is \<open>['']\<close>.\<close>

fun split :: "nat \<Rightarrow> ustr \<Rightarrow> ustr list" where
  "split sep [] = [[]]"
| "split sep (c # cs) =
     (if c = sep then [] # split sep cs
      else (case split sep cs of
              [] \<Rightarrow> [[c]]
            | p # ps \<Rightarrow> (c # p) # ps))"

text \<open>
  The code points that \<open>str.strip()\<close> removes when called without argument (those for
  which \<open>str.isspace\<close> holds).
\<close>

definition isspace :: "nat \<Rightarrow> bool" where
  "isspace c =
     ((9 \<le> c \<and> c \<le> 13) \<or> (28 \<le> c \<and> c \<le> 32) \<or> c = 133 \<or> c = 160 \<or> c = 5760
      \<or> (8192 \<le> c \<and> c \<le> 8202) \<or> c = 8232 \<or> c = 8233 \<or> c = 8239 \<or> c = 8287
      \<or> c = 12288)"

definition strip :: "ustr \<Rightarrow> ustr" where
  "strip s = rev (dropWhile isspace (rev (dropWhile isspace s)))"

text \<open>
  \<open>str.lower()\<close>.  The program observes the lowered string only through
  \<open>.endswith('.zip')\<close>, and then cuts four code points off the original string.
  The code points whose lower-case form ends in one of \<open>.\<close>, \<open>z\<close>, \<open>i\<close>,
  \<open>p\<close> are these four and \<open>Z\<close>, \<open>I\<close>, \<open>P\<close>, each of them lowered to one code
  point.  The test therefore has the same answer when only the letters \<open>A\<close> to
  \<open>Z\<close> are lowered and every other code point is left as it is, which is what the
  model does.
\<close>

definition lower_cp :: "nat \<Rightarrow> nat" where
  "lower_cp c = (if 65 \<le> c \<and> c \<le> 90 then c + 32 else c)"

definition lower :: "ustr \<Rightarrow> ustr" where
  "lower s = map lower_cp s"

section \<open>Credential and destination validation\<close>

text \<open>The lines \<open>validate_token\<close> prints.  The first is an error, the other two warnings.\<close>

datatype token_message = TokenNotProvided | WarnPrefix | WarnShort

text \<open>
  \<open>validate_token\<close>: the result and what was printed.  Only the empty token is
  refused; a wrong prefix and a short token print a warning each and fall through to
  \<open>return True\<close>.
\<close>

definition validate_token :: "ustr \<Rightarrow> bool \<times> token_message list" where
  "validate_token token =
     (if token = [] then (False, [TokenNotProvided])
      else (True,
            (if \<not> startswith token (ascii ''hf_'') then [WarnPrefix] else []) @
            (if length token < 20 then [WarnShort] else [])))"

definition is_warning :: "token_message \<Rightarrow> bool" where
  "is_warning m = (m = WarnPrefix \<or> m = WarnShort)"

text \<open>\<open>validate_repo\<close>, its three checks in the order of the source.\<close>

definition validate_repo :: "ustr \<Rightarrow> bool" where
  "validate_repo repo =
     (if repo = [] then False
      else if \<not> contains 47 repo then False
      else (let parts = split 47 repo in
            if length parts \<noteq> 2 \<or> parts ! 0 = [] \<or> parts ! 1 = [] then False
            else True))"

section \<open>Archive name\<close>

text \<open>\<open>datetime.now()\<close>: the fields \<open>strftime\<close> reads.\<close>

record datetime =
  year :: nat
  month :: nat
  day :: nat
  hour :: nat
  minute :: nat
  second :: nat

definition valid_datetime :: "datetime \<Rightarrow> bool" where
  "valid_datetime d =
     (1000 \<le> year d \<and> year d \<le> 9999 \<and> 1 \<le> month d \<and> month d \<le> 12 \<and>
      1 \<le> day d \<and> day d \<le> 31 \<and> hour d \<le> 23 \<and> minute d \<le> 59 \<and> second d \<le> 59)"

definition digit :: "nat \<Rightarrow> nat" where
  "digit n = 48 + n mod 10"

definition isdigit :: "nat \<Rightarrow> bool" where
  "isdigit c = (48 \<le> c \<and> c \<le> 57)"

definition pad2 :: "nat \<Rightarrow> ustr" where
  "pad2 n = [digit (n div 10), digit n]"

definition pad4 :: "nat \<Rightarrow> ustr" where
  "pad4 n = [digit (n div 1000), digit (n div 100), digit (n div 10), digit n]"

text \<open>\<open>strftime("%Y%m%d_%H%M%S")\<close>; 95 is the underscore.\<close>

definition strftime :: "datetime \<Rightarrow> ustr" where
  "strftime d =
     pad4 (year d) @ pad2 (month d) @ pad2 (day d) @ [95] @
     pad2 (hour d) @ pad2 (minute d) @ pad2 (second d)"

text \<open>
  \<open>Path(p).name\<close> on a POSIX path: the last component, where empty components and
  \<open>.\<close> components are dropped by the parser and the root has the empty name.
\<close>

definition path_name :: "ustr \<Rightarrow> ustr" where
  "path_name p =
     (let parts = filter (\<lambda>c. c \<noteq> [] \<and> c \<noteq> ascii ''.'') (split 47 p)
      in if parts = [] then [] else last parts)"

text \<open>
  \<open>generate_zip_name\<close>, with the current time as a parameter.  \<open>custom_name\<close>
  defaults to \<open>None\<close>; \<open>custom_name[:-4]\<close> drops the last four code points.
\<close>

definition generate_zip_name :: "datetime \<Rightarrow> ustr \<Rightarrow> ustr option \<Rightarrow> ustr" where
  "generate_zip_name now folder_path custom_name =
     (let timestamp = strftime now in
      case custom_name of
        None \<Rightarrow> path_name folder_path @ ascii ''_'' @ timestamp @ ascii ''.zip''
      | Some cn \<Rightarrow>
          if cn \<noteq> [] \<and> strip cn \<noteq> [] then
            (let cn' = (if endswith (lower cn) (ascii ''.zip'')
                        then take (length cn - 4) cn else cn)
             in cn' @ ascii ''_'' @ timestamp @ ascii ''.zip'')
          else path_name folder_path @ ascii ''_'' @ timestamp @ ascii ''.zip'')"

section \<open>Folder lookup\<close>

text \<open>
  \<open>find_folder\<close> asks the file system two things: \<open>os.path.isdir\<close> and
  \<open>os.path.realpath\<close>.  Both are parameters of the model.
\<close>

definition possible_paths :: "ustr \<Rightarrow> ustr list" where
  "possible_paths folder_path =
     (if startswith folder_path (ascii ''/'') then [folder_path]
      else [ascii ''/'' @ folder_path, folder_path]) @
     [ascii ''./'' @ folder_path,
      ascii ''../'' @ folder_path,
      (if \<not> startswith folder_path (ascii ''/workspace'')
       then ascii ''/workspace/'' @ folder_path else folder_path)]"

text \<open>The \<open>for path in possible_paths\<close> loop, which returns at the first directory.\<close>

fun first_dir :: "(ustr \<Rightarrow> bool) \<Rightarrow> (ustr \<Rightarrow> ustr) \<Rightarrow> ustr list \<Rightarrow> ustr option" where
  "first_dir isdir realpath [] = None"
| "first_dir isdir realpath (p # ps) =
     (if isdir p then Some (realpath p) else first_dir isdir realpath ps)"

definition find_folder :: "(ustr \<Rightarrow> bool) \<Rightarrow> (ustr \<Rightarrow> ustr) \<Rightarrow> ustr \<Rightarrow> ustr option" where
  "find_folder isdir realpath folder_path =
     first_dir isdir realpath (possible_paths folder_path)"

section \<open>Archive creation\<close>

text \<open>
  The source folder as \<open>create_zip\<close> sees it: a tree whose nodes are regular
  files, directories with their named children, symbolic links with the node they
  point to, and anything else (a socket, a FIFO, a link that points nowhere).  A
  path below the folder is the list of its components.
\<close>

type_synonym path = "ustr list"

datatype fsnode = File | Dir "(ustr \<times> fsnode) list" | Other | Link fsnode

type_synonym folder = "(ustr \<times> fsnode) list"

text \<open>
  \<open>is_file()\<close>, \<open>is_dir()\<close> and \<open>iterdir()\<close> follow symbolic links: they look at
  the node a link leads to.
\<close>

fun resolve :: "fsnode \<Rightarrow> fsnode" where
  "resolve (Link x) = resolve x"
| "resolve File = File"
| "resolve (Dir cs) = Dir cs"
| "resolve Other = Other"

definition is_file :: "fsnode \<Rightarrow> bool" where
  "is_file x = (resolve x = File)"

definition is_dir :: "fsnode \<Rightarrow> bool" where
  "is_dir x = (case resolve x of Dir cs \<Rightarrow> True | _ \<Rightarrow> False)"

text \<open>\<open>list(x.iterdir())\<close> for a directory \<open>x\<close>.\<close>

definition iterdir :: "fsnode \<Rightarrow> (ustr \<times> fsnode) list" where
  "iterdir x = (case resolve x of Dir cs \<Rightarrow> cs | _ \<Rightarrow> [])"

text \<open>
  \<open>Path.rglob('*')\<close>: the pattern \<open>**/*\<close>.  The directories are visited in
  pre-order, the folder itself first, and each visited directory yields all of its
  children, in the order its listing has them.  The walk enters a directory only
  when the entry itself is one (\<open>entry.is_dir(follow_symlinks=False)\<close>): a symbolic
  link to a directory is yielded as a child of its parent and not entered.  The
  folder itself is not among the results, and every path is there once.
\<close>

definition children_of :: "path \<Rightarrow> folder \<Rightarrow> (path \<times> fsnode) list" where
  "children_of p cs = map (\<lambda>(n, x). (p @ [n], x)) cs"

fun descend :: "path \<Rightarrow> folder \<Rightarrow> (path \<times> fsnode) list" where
  "descend p [] = []"
| "descend p ((n, Dir cs) # rest) =
     children_of (p @ [n]) cs @ descend (p @ [n]) cs @ descend p rest"
| "descend p ((n, File) # rest) = descend p rest"
| "descend p ((n, Other) # rest) = descend p rest"
| "descend p ((n, Link x) # rest) = descend p rest"

definition rglob :: "folder \<Rightarrow> (path \<times> fsnode) list" where
  "rglob root = children_of [] root @ descend [] root"

text \<open>
  An entry of the archive: \<open>arcname\<close> is the path relative to the folder,
  \<open>directory\<close> tells the placeholder of an empty directory from a file.
  \<open>filename\<close> is the name \<open>zipfile\<close> stores: the components joined by \<open>/\<close>, with
  a trailing \<open>/\<close> for a directory.
\<close>

record zip_entry =
  arcname :: path
  directory :: bool



datatype compression = ZIP_STORED | ZIP_DEFLATED

record archive =
  compress_type :: compression
  compresslevel :: nat
  entries :: "zip_entry list"

text \<open>
  What the file system answers about \<open>zip_path\<close>.  Opening the archive for
  writing can raise inside the \<open>try\<close>, and so can the step of the loop for one
  path: \<open>zipf.write\<close> of a file that cannot be read or is dated before 1980,
  \<open>iterdir()\<close> of a directory that cannot be read.  The folder
  is read twice: \<open>rglob\<close> lists it before the archive is opened, and the loop
  tests every listed path again (\<open>is_file()\<close>, \<open>is_dir()\<close>, \<open>iterdir()\<close>) after
  the archive has been opened, when the archive is a file at \<open>zip_path\<close>.
  \<open>at_write p x\<close> is the node at the listed path \<open>p\<close> at the time of the loop,
  where \<open>x\<close> is the node that was listed there.
\<close>

record zip_io =
  can_open :: bool
  can_write :: "path \<Rightarrow> bool"
  at_write :: "path \<Rightarrow> fsnode \<Rightarrow> fsnode"

text \<open>
  An archive outside the folder leaves the folder as it was listed.  An archive
  that is a new file at the path \<open>q\<close> below the folder is one more child of the
  directory that holds it.
\<close>

definition unchanged :: "path \<Rightarrow> fsnode \<Rightarrow> fsnode" where
  "unchanged p x = x"


text \<open>
  The loop over \<open>all_files\<close>.  A failing \<open>zipf.write\<close> raises: the loop stops, the
  entries written so far stay in the archive, and the \<open>except\<close> clause returns
  \<open>False\<close>.
\<close>

fun write_all :: "zip_io \<Rightarrow> (path \<times> fsnode) list \<Rightarrow> zip_entry list \<Rightarrow> bool \<times> zip_entry list" where
  "write_all io [] acc = (True, acc)"
| "write_all io ((p, x) # rest) acc =
     (if is_file (at_write io p x) then
        (if can_write io p then write_all io rest (acc @ [\<lparr>arcname = p, directory = False\<rparr>])
         else (False, acc))
      else if is_dir (at_write io p x) \<and> iterdir (at_write io p x) = [] then
        (if can_write io p then write_all io rest (acc @ [\<lparr>arcname = p, directory = True\<rparr>])
         else (False, acc))
      else write_all io rest acc)"

text \<open>
  \<open>create_zip\<close>: the returned flag, and the archive file at \<open>zip_path\<close> when the
  call has created one.  \<open>root\<close> is the folder as \<open>rglob\<close> lists it; the files are
  counted on this listing, before the archive is opened.
\<close>

definition create_zip :: "zip_io \<Rightarrow> folder \<Rightarrow> bool \<times> archive option" where
  "create_zip io root =
     (let all_files = rglob root;
          total_files = length (filter (\<lambda>f. is_file (snd f)) all_files)
      in if total_files = 0 then (False, None)
         else if \<not> can_open io then (False, None)
         else (case write_all io all_files [] of
                 (done, es) \<Rightarrow>
                   (done, Some \<lparr>compress_type = ZIP_DEFLATED, compresslevel = 6, entries = es\<rparr>)))"

section \<open>Upload\<close>

text \<open>
  The keyword arguments of the one \<open>upload_file\<close> call (\<open>repo_type\<close> is always
  \<open>"model"\<close>).
\<close>

record upload_request =
  path_or_fileobj :: ustr
  path_in_repo :: ustr
  to_repo :: ustr
  with_token :: ustr
  commit_message :: ustr

text \<open>
  \<open>HfApi\<close> and \<open>upload_file\<close> are arguments of \<open>upload_to_hf\<close>.  The model takes
  what they answer: whether \<open>repo_info\<close> and \<open>create_repo\<close> return (or raise), and
  the URL \<open>upload_file\<close> returns (\<open>None\<close> when it raises).
\<close>

record hub_api =
  repo_info :: "ustr \<Rightarrow> ustr \<Rightarrow> bool"
  create_repo :: "ustr \<Rightarrow> ustr \<Rightarrow> bool"
  upload_file :: "upload_request \<Rightarrow> ustr option"

text \<open>What a run does outside of the process, in order.\<close>

datatype event =
    PipInstall
  | FindFolder ustr
  | MakeTempDir
  | CreateZip ustr ustr
  | RepoInfo ustr
  | CreateRepo ustr
  | UploadFile upload_request


text \<open>The calls to the registry alone.\<close>

fun registry_call :: "event \<Rightarrow> bool" where
  "registry_call (RepoInfo r) = True"
| "registry_call (CreateRepo r) = True"
| "registry_call (UploadFile q) = True"
| "registry_call e = False"

text \<open>\<open>os.path.basename\<close>: what follows the last \<open>/\<close>.\<close>

definition basename :: "ustr \<Rightarrow> ustr" where
  "basename p = last (split 47 p)"

text \<open>The commit message; 225 is the a with acute accent of the source's literal.\<close>

definition upload_message :: "ustr \<Rightarrow> ustr" where
  "upload_message fname = ascii ''Upload autom'' @ [225] @ ascii ''tico: '' @ fname"

definition upload_to_hf :: "hub_api \<Rightarrow> ustr \<Rightarrow> ustr \<Rightarrow> ustr \<Rightarrow> ustr option \<times> event list" where
  "upload_to_hf api zip_path repo_id token =
     (let fname = basename zip_path;
          request = \<lparr>path_or_fileobj = zip_path, path_in_repo = fname, to_repo = repo_id,
                     with_token = token, commit_message = upload_message fname\<rparr>
      in if repo_info api repo_id token then
           (upload_file api request, [RepoInfo repo_id, UploadFile request])
         else if create_repo api repo_id token then
           (upload_file api request, [RepoInfo repo_id, CreateRepo repo_id, UploadFile request])
         else (None, [RepoInfo repo_id, CreateRepo repo_id]))"

section \<open>The node\<close>

text \<open>
  The environment of one run: whether \<open>huggingface_hub\<close> can be imported, the text
  of the exception when installing it (or importing it afterwards) fails, the
  registry, the file system as \<open>find_folder\<close> and \<open>create_zip\<close> read it (the
  contents of a folder, and what it answers about an archive path for a folder),
  the clock, and the temporary directory (\<open>Inl\<close> the text of the exception when
  none can be made).
\<close>

record env =
  hub_importable :: bool
  pip_error :: "ustr option"
  hub :: hub_api
  isdir :: "ustr \<Rightarrow> bool"
  realpath :: "ustr \<Rightarrow> ustr"
  contents :: "ustr \<Rightarrow> folder"
  zip_io_at :: "ustr \<Rightarrow> ustr \<Rightarrow> zip_io"
  now :: datetime
  temp_dir :: "ustr + ustr"

definition install_dependencies :: "env \<Rightarrow> (ustr + hub_api) \<times> event list" where
  "install_dependencies e =
     (if hub_importable e then (Inr (hub e), [])
      else (case pip_error e of
              None \<Rightarrow> (Inr (hub e), [PipInstall])
            | Some msg \<Rightarrow> (Inl msg, [PipInstall])))"

text \<open>The ways a run fails, one for each \<open>return\<close> of a failure string.\<close>

datatype failure =
    DepsError ustr
  | TokenInvalid
  | RepoInvalid
  | FolderNotFound
  | ZipFailed
  | UploadFailed
  | ProcessError ustr

text \<open>The fixed marker that starts every failure string: U+274C and a space.\<close>

definition marker :: ustr where
  "marker = [10060, 32]"

text \<open>
  The failure strings of the source; 225, 227, 234 and 243 are the accented letters
  of its literals.
\<close>

fun failure_message :: "failure \<Rightarrow> ustr" where
  "failure_message (DepsError e) =
     marker @ ascii ''Erro ao instalar depend'' @ [234] @ ascii ''ncias: '' @ e"
| "failure_message TokenInvalid = marker @ ascii ''Token inv'' @ [225] @ ascii ''lido''"
| "failure_message RepoInvalid =
     marker @ ascii ''Reposit'' @ [243] @ ascii ''rio inv'' @ [225] @ ascii ''lido''"
| "failure_message FolderNotFound = marker @ ascii ''Pasta n'' @ [227] @ ascii ''o encontrada''"
| "failure_message ZipFailed = marker @ ascii ''Falha ao criar ZIP''"
| "failure_message UploadFailed = marker @ ascii ''Falha no upload''"
| "failure_message (ProcessError e) = marker @ ascii ''Erro durante o processo: '' @ e"

text \<open>The string in the one-element tuple that \<open>upload_folder\<close> returns.\<close>

definition returned_string :: "failure + ustr \<Rightarrow> ustr" where
  "returned_string r = (case r of Inl f \<Rightarrow> failure_message f | Inr url \<Rightarrow> url)"

text \<open>\<open>os.path.join\<close> of two parts: an absolute second part replaces the first.\<close>

definition path_join :: "ustr \<Rightarrow> ustr \<Rightarrow> ustr" where
  "path_join a b =
     (if startswith b (ascii ''/'') then b
      else if a = [] \<or> endswith a (ascii ''/'') then a @ b
      else a @ ascii ''/'' @ b)"

text \<open>
  \<open>upload_folder\<close>: the result and the events of the run.  The trigger images are
  not read and are left out.  \<open>if not folder_path\<close> also refuses the empty string,
  \<open>if upload_url\<close> the empty URL.
\<close>

definition upload_folder :: "env \<Rightarrow> ustr \<Rightarrow> ustr \<Rightarrow> ustr \<Rightarrow> ustr \<Rightarrow> (failure + ustr) \<times> event list" where
  "upload_folder e hf_token repo_id folder_path zip_name =
     (case install_dependencies e of
        (Inl msg, t0) \<Rightarrow> (Inl (DepsError msg), t0)
      | (Inr api, t0) \<Rightarrow>
          if \<not> fst (validate_token hf_token) then (Inl TokenInvalid, t0)
          else if \<not> validate_repo repo_id then (Inl RepoInvalid, t0)
          else
            (let found = find_folder (isdir e) (realpath e) folder_path;
                 t1 = t0 @ [FindFolder folder_path]
             in case found of
                  None \<Rightarrow> (Inl FolderNotFound, t1)
                | Some folder \<Rightarrow>
                    if folder = [] then (Inl FolderNotFound, t1)
                    else
                      (let zip_filename = generate_zip_name (now e) folder (Some zip_name);
                           t2 = t1 @ [MakeTempDir]
                       in case temp_dir e of
                            Inl msg \<Rightarrow> (Inl (ProcessError msg), t2)
                          | Inr dir \<Rightarrow>
                              (let zip_path = path_join dir zip_filename;
                                   t3 = t2 @ [CreateZip folder zip_path]
                               in if \<not> fst (create_zip (zip_io_at e folder zip_path) (contents e folder))
                                  then (Inl ZipFailed, t3)
                                  else
                                    (case upload_to_hf api zip_path repo_id hf_token of
                                       (Some url, t4) \<Rightarrow>
                                         if url \<noteq> [] then (Inr url, t3 @ t4)
                                         else (Inl UploadFailed, t3 @ t4)
                                     | (None, t4) \<Rightarrow> (Inl UploadFailed, t3 @ t4))))))"

section \<open>The invocation by the host\<close>

text \<open>
  The host reads the names of the inputs from \<open>INPUT_TYPES\<close> and calls the method
  named by \<open>FUNCTION\<close> with one keyword argument for each required input.
\<close>

datatype input_type = STRING | IMAGE

definition INPUT_TYPES_required :: "(string \<times> input_type) list" where
  "INPUT_TYPES_required =
     [(''hf_token'', STRING), (''repo_id'', STRING), (''folder_path'', STRING),
      (''zip_name'', STRING), (''trigger_image_1'', IMAGE), (''trigger_image_2'', IMAGE),
      (''trigger_image_3'', IMAGE), (''trigger_image_4'', IMAGE)]"

definition RETURN_TYPES :: "input_type list" where
  "RETURN_TYPES = [STRING]"

text \<open>The parameters in the signature of \<open>upload_folder\<close>, after \<open>self\<close>.\<close>

definition upload_folder_params :: "string list" where
  "upload_folder_params =
     [''hf_token'', ''repo_id'', ''folder_path'', ''zip_name'',
      ''trigger_image_1'', ''trigger_image_2'', ''trigger_image_3'']"

datatype pyvalue = Str ustr | Image

datatype call_error = TypeError

text \<open>
  A call with keyword arguments: a keyword that is no parameter, and a parameter
  without argument, raise \<open>TypeError\<close> before the body runs.  Otherwise the values
  are bound in the order of the parameters.
\<close>

definition bind_keywords :: "string list \<Rightarrow> (string \<times> pyvalue) list \<Rightarrow> call_error + pyvalue list" where
  "bind_keywords params kwargs =
     (if list_ex (\<lambda>k. k \<notin> set params) (map fst kwargs) then Inl TypeError
      else if list_ex (\<lambda>p. p \<notin> set (map fst kwargs)) params then Inl TypeError
      else Inr (map (\<lambda>p. the (map_of kwargs p)) params))"

text \<open>The keyword arguments the host passes: a string or an image as declared.\<close>

definition host_kwargs :: "ustr \<Rightarrow> ustr \<Rightarrow> ustr \<Rightarrow> ustr \<Rightarrow> (string \<times> pyvalue) list" where
  "host_kwargs hf_token repo_id folder_path zip_name =
     zip (map fst INPUT_TYPES_required)
       [Str hf_token, Str repo_id, Str folder_path, Str zip_name, Image, Image, Image, Image]"

text \<open>
  One execution of the node by the host: the returned tuple as the list of its
  strings, or the exception of the call.
\<close>

definition execute :: "env \<Rightarrow> ustr \<Rightarrow> ustr \<Rightarrow> ustr \<Rightarrow> ustr \<Rightarrow> call_error + ustr list" where
  "execute e hf_token repo_id folder_path zip_name =
     (case bind_keywords upload_folder_params (host_kwargs hf_token repo_id folder_path zip_name) of
        Inl err \<Rightarrow> Inl err
      | Inr [Str a, Str b, Str c, Str d, t1, t2, t3] \<Rightarrow> Inr [returned_string (fst (upload_folder e a b c d))]
      | Inr other \<Rightarrow> Inl TypeError)"

section \<open>The specification's notions\<close>




text \<open>
  The base name of the archive as the specification describes it: the custom name
  without a trailing \<open>.zip\<close> in any letter case, or the folder's own name when the
  custom name is missing or blank.
\<close>

definition blank :: "ustr \<Rightarrow> bool" where
  "blank s = list_all isspace s"

definition zip_extension :: "ustr \<Rightarrow> bool" where
  "zip_extension x = (length x = 4 \<and> map lower_cp x = ascii ''.zip'')"

definition without_extension :: "ustr \<Rightarrow> ustr" where
  "without_extension c =
     (if 4 \<le> length c \<and> zip_extension (drop (length c - 4) c)
      then take (length c - 4) c else c)"

definition base_name :: "ustr \<Rightarrow> ustr option \<Rightarrow> ustr" where
  "base_name folder_path custom_name =
     (case custom_name of
        None \<Rightarrow> path_name folder_path
      | Some c \<Rightarrow> if blank c then path_name folder_path else without_extension c)"

text \<open>The shape \<open>YYYYMMDD_HHMMSS\<close>, and the number a run of digits denotes.\<close>

definition is_timestamp :: "ustr \<Rightarrow> bool" where
  "is_timestamp s =
     (length s = 15 \<and> list_all isdigit (take 8 s) \<and> s ! 8 = 95 \<and> list_all isdigit (drop 9 s))"

definition decimal :: "ustr \<Rightarrow> nat" where
  "decimal s = foldl (\<lambda>a c. 10 * a + (c - 48)) 0 s"

text \<open>
  The regular files of a folder and its empty directories, each by its path
  relative to the folder, read off the tree one directory after the other.  A link
  to a regular file is a regular file at the path of the link, a link to an empty
  directory an empty directory; what lies below a link to a directory is not
  reached.
\<close>

fun files_in :: "path \<Rightarrow> folder \<Rightarrow> path list" where
  "files_in p [] = []"
| "files_in p ((n, File) # rest) = (p @ [n]) # files_in p rest"
| "files_in p ((n, Dir cs) # rest) = files_in (p @ [n]) cs @ files_in p rest"
| "files_in p ((n, Other) # rest) = files_in p rest"
| "files_in p ((n, Link x) # rest) =
     (if is_file (Link x) then [p @ [n]] else []) @ files_in p rest"


text \<open>
  Every path below the folder at which \<open>is_file()\<close> holds, also below a link to a
  directory.
\<close>

fun all_files :: "path \<Rightarrow> folder \<Rightarrow> path list"
  and files_at :: "path \<Rightarrow> fsnode \<Rightarrow> path list" where
  "all_files p [] = []"
| "all_files p ((n, x) # rest) = files_at (p @ [n]) x @ all_files p rest"
| "files_at q File = [q]"
| "files_at q (Dir cs) = all_files q cs"
| "files_at q Other = []"
| "files_at q (Link x) = files_at q x"





text \<open>The upload requests among the events of a run.\<close>

fun uploads :: "event list \<Rightarrow> upload_request list" where
  "uploads [] = []"
| "uploads (UploadFile q # evs) = q # uploads evs"
| "uploads (ev # evs) = uploads evs"

text \<open>
  A registry on which the destination does not exist yet, can be created, and every
  upload succeeds.
\<close>

definition example_hub :: hub_api where
  "example_hub =
     \<lparr>repo_info = (\<lambda>r t. False),
      create_repo = (\<lambda>r t. True),
      upload_file = (\<lambda>q. Some (ascii ''https://huggingface.co/'' @ to_repo q @
                                 ascii ''/blob/main/'' @ path_in_repo q))\<rparr>"

text \<open>The folder of the specification's scenario.\<close>

definition example_folder :: folder where
  "example_folder =
     [(ascii ''a.txt'', File), (ascii ''b'', Dir [(ascii ''c.txt'', File)]), (ascii ''d'', Dir [])]"



text \<open>
  An archive outside the folder, with every write succeeding; the same with every
  write raising, as for files that cannot be read or carry a time stamp before
  1980; an archive that is the new file \<open>d/out.zip\<close> of the folder.
\<close>

definition plain_io :: zip_io where
  "plain_io = \<lparr>can_open = True, can_write = (\<lambda>q. True), at_write = unchanged\<rparr>"



text \<open>
  A machine on which the client library is not installed yet and can be installed,
  with the scenario's folder at \<open>/workspace/demo\<close> and an empty folder at
  \<open>/workspace/void\<close>.
\<close>

definition example_env :: env where
  "example_env =
     \<lparr>hub_importable = False,
      pip_error = None,
      hub = example_hub,
      isdir = (\<lambda>p. p = ascii ''/workspace/demo'' \<or> p = ascii ''/workspace/void''),
      realpath = (\<lambda>p. p),
      contents = (\<lambda>p. if p = ascii ''/workspace/demo'' then example_folder else []),
      zip_io_at = (\<lambda>f p. plain_io),
      now = \<lparr>year = 2024, month = 11, day = 25, hour = 13, minute = 24, second = 59\<rparr>,
      temp_dir = Inr (ascii ''/tmp/t1'')\<rparr>"

text \<open>The same machine when the installation of the client library fails.\<close>

definition broken_env :: env where
  "broken_env = example_env\<lparr>pip_error := Some (ascii ''pip failed'')\<rparr>"

section \<open>Properties of the string functions\<close>







lemma strip_empty_iff: "strip s = [] \<longleftrightarrow> blank s"
proof -
  have "strip s = [] \<longleftrightarrow> dropWhile isspace (rev (dropWhile isspace s)) = []"
    by (simp add: strip_def)
  also have "\<dots> \<longleftrightarrow> (\<forall>x \<in> set (dropWhile isspace s). isspace x)"
    by (simp add: dropWhile_eq_Nil_conv)
  also have "\<dots> \<longleftrightarrow> dropWhile isspace s = []"
    by (metis dropWhile_eq_Nil_conv dropWhile_idem)
  also have "\<dots> \<longleftrightarrow> blank s"
    by (simp add: dropWhile_eq_Nil_conv blank_def list_all_iff)
  finally show ?thesis .
qed

lemma supplied_iff: "(cn \<noteq> [] \<and> strip cn \<noteq> []) \<longleftrightarrow> \<not> blank cn"
  by (cases cn) (auto simp: strip_empty_iff blank_def)

lemma length_zip_literal: "length (ascii ''.zip'') = 4"
  by (simp add: ascii_def)

lemma endswith_lower_zip:
  "endswith (lower cn) (ascii ''.zip'') \<longleftrightarrow>
     (4 \<le> length cn \<and> zip_extension (drop (length cn - 4) cn))"
  by (auto simp: endswith_def lower_def zip_extension_def length_zip_literal drop_map)

lemma generate_zip_name_base:
  "generate_zip_name dt fp cn = base_name fp cn @ ascii ''_'' @ strftime dt @ ascii ''.zip''"
proof (cases cn)
  case None
  then show ?thesis by (simp add: generate_zip_name_def base_name_def)
next
  case (Some c)
  have test: "(c \<noteq> [] \<and> strip c \<noteq> []) = (\<not> blank c)" by (rule supplied_iff)
  show ?thesis
    unfolding generate_zip_name_def base_name_def Some option.case Let_def test endswith_lower_zip
      without_extension_def
    by simp
qed

lemma isdigit_digit: "isdigit (digit n)"
  by (simp add: isdigit_def digit_def)

lemma timestamp_shape: "is_timestamp (strftime d)"
  by (simp add: is_timestamp_def strftime_def pad2_def pad4_def isdigit_digit)

lemma decimal_pad2: "n < 100 \<Longrightarrow> decimal (pad2 n) = n"
  unfolding decimal_def pad2_def digit_def by simp

lemma horner4:
  "q3' = q3 \<Longrightarrow> q2 = 10 * q3 + m2 \<Longrightarrow> q1 = 10 * q2 + m1 \<Longrightarrow> n = 10 * q1 + m0 \<Longrightarrow>
   10 * (10 * (10 * q3' + m2) + m1) + m0 = (n::nat)"
  by simp

lemma decimal_pad4:
  assumes "n < 10000"
  shows "decimal (pad4 n) = n"
proof -
  have q3: "n div 1000 mod 10 = n div 1000"
    using assms by simp
  have a: "n div 1000 = n div 100 div 10" by (simp add: div_mult2_eq)
  have b: "n div 100 = n div 10 div 10" by (simp add: div_mult2_eq)
  have e2: "n div 100 = 10 * (n div 1000) + n div 100 mod 10" unfolding a by simp
  have e1: "n div 10 = 10 * (n div 100) + n div 10 mod 10" unfolding b by simp
  have e0: "n = 10 * (n div 10) + n mod 10" by simp
  have "decimal (pad4 n) =
          10 * (10 * (10 * (n div 1000 mod 10) + n div 100 mod 10) + n div 10 mod 10) + n mod 10"
    unfolding decimal_def pad4_def digit_def by simp
  also have "\<dots> = n" by (rule horner4 [OF q3 e2 e1 e0])
  finally show ?thesis .
qed

section \<open>The archive name\<close>

lemma strftime_fields:
  "take 4 (strftime d) = pad4 (year d)"
  "take 2 (drop 4 (strftime d)) = pad2 (month d)"
  "take 2 (drop 6 (strftime d)) = pad2 (day d)"
  "take 2 (drop 9 (strftime d)) = pad2 (hour d)"
  "take 2 (drop 11 (strftime d)) = pad2 (minute d)"
  "drop 13 (strftime d) = pad2 (second d)"
  by (simp_all add: strftime_def pad4_def pad2_def)

text \<open>
  C3.  At a fixed current time the generated name is the base name, an underscore,
  the time as \<open>YYYYMMDD_HHMMSS\<close> and \<open>.zip\<close>.  The base name is the custom name
  without its trailing \<open>.zip\<close>, or the name of the source folder when no custom
  name is given.  The fifteen characters of the time are eight digits, an underscore
  and six digits, and they read as the year, month, day, hour, minute and second.
\<close>

theorem generate_zip_name_convention:
  assumes "valid_datetime dt"
  shows "generate_zip_name dt fp cn = base_name fp cn @ ascii ''_'' @ strftime dt @ ascii ''.zip'' \<and>
         is_timestamp (strftime dt) \<and>
         decimal (take 4 (strftime dt)) = year dt \<and>
         decimal (take 2 (drop 4 (strftime dt))) = month dt \<and>
         decimal (take 2 (drop 6 (strftime dt))) = day dt \<and>
         decimal (take 2 (drop 9 (strftime dt))) = hour dt \<and>
         decimal (take 2 (drop 11 (strftime dt))) = minute dt \<and>
         decimal (drop 13 (strftime dt)) = second dt"
proof -
  from assms have "year dt < 10000" "month dt < 100" "day dt < 100" "hour dt < 100"
    "minute dt < 100" "second dt < 100"
    by (simp_all add: valid_datetime_def)
  then show ?thesis
    by (simp only: strftime_fields decimal_pad2 decimal_pad4 generate_zip_name_base
          timestamp_shape simp_thms)
qed

text \<open>
  At 13:24:59 on 25 November 2024, the custom name \<open>pack.zip\<close> gives
  \<open>pack_20241125_132459.zip\<close>, and no custom name gives the name of the folder
  \<open>/workspace/demo\<close>.
\<close>

theorem generate_zip_name_convention_witness:
  "valid_datetime \<lparr>year = 2024, month = 11, day = 25, hour = 13, minute = 24, second = 59\<rparr> \<and>
   generate_zip_name \<lparr>year = 2024, month = 11, day = 25, hour = 13, minute = 24, second = 59\<rparr>
     (ascii ''/workspace/demo'') (Some (ascii ''pack.zip'')) = ascii ''pack_20241125_132459.zip'' \<and>
   generate_zip_name \<lparr>year = 2024, month = 11, day = 25, hour = 13, minute = 24, second = 59\<rparr>
     (ascii ''/workspace/demo'') None = ascii ''demo_20241125_132459.zip''"
proof -
  let ?t = "\<lparr>year = 2024, month = 11, day = 25, hour = 13, minute = 24, second = 59\<rparr>"
  have v: "valid_datetime ?t"
    by (simp add: valid_datetime_def)
  have b1: "base_name (ascii ''/workspace/demo'') (Some (ascii ''pack.zip'')) = ascii ''pack''"
    by (simp add: base_name_def blank_def isspace_def without_extension_def zip_extension_def
          lower_cp_def ascii_def)
  have b2: "base_name (ascii ''/workspace/demo'') None = ascii ''demo''"
    by (simp add: base_name_def path_name_def ascii_def)
  have s: "strftime ?t = ascii ''20241125_132459''"
    by (simp add: strftime_def pad4_def pad2_def digit_def ascii_def)
  have c1: "ascii ''pack'' @ ascii ''_'' @ ascii ''20241125_132459'' @ ascii ''.zip''
              = ascii ''pack_20241125_132459.zip''"
    by (simp add: ascii_def)
  have c2: "ascii ''demo'' @ ascii ''_'' @ ascii ''20241125_132459'' @ ascii ''.zip''
              = ascii ''demo_20241125_132459.zip''"
    by (simp add: ascii_def)
  note n1 = generate_zip_name_convention [OF v, of "ascii ''/workspace/demo''"
      "Some (ascii ''pack.zip'')", THEN conjunct1]
  note n2 = generate_zip_name_convention [OF v, of "ascii ''/workspace/demo''" None,
      THEN conjunct1]
  have r1: "generate_zip_name ?t (ascii ''/workspace/demo'') (Some (ascii ''pack.zip''))
              = ascii ''pack_20241125_132459.zip''"
    using n1 unfolding b1 s c1 .
  have r2: "generate_zip_name ?t (ascii ''/workspace/demo'') None
              = ascii ''demo_20241125_132459.zip''"
    using n2 unfolding b2 s c2 .
  from v r1 r2 show ?thesis by (intro conjI)
qed

text \<open>
  C10.  A custom name that is empty or made of white space only counts as absent:
  the name of the source folder is used.  A trailing \<open>.zip\<close> is removed in any
  letter case, and once only: what stands before the last four characters is kept
  as it is, also when it ends in \<open>.zip\<close> itself.  A name without that ending is
  kept whole.
\<close>

theorem generate_zip_name_blank_and_extension:
  "(blank c \<longrightarrow> generate_zip_name dt fp (Some c) =
       path_name fp @ ascii ''_'' @ strftime dt @ ascii ''.zip'') \<and>
   generate_zip_name dt fp None = path_name fp @ ascii ''_'' @ strftime dt @ ascii ''.zip'' \<and>
   (zip_extension ext \<and> \<not> blank (stem @ ext) \<longrightarrow>
      generate_zip_name dt fp (Some (stem @ ext)) =
        stem @ ascii ''_'' @ strftime dt @ ascii ''.zip'') \<and>
   (\<not> blank c \<and> \<not> (4 \<le> length c \<and> zip_extension (drop (length c - 4) c)) \<longrightarrow>
      generate_zip_name dt fp (Some c) = c @ ascii ''_'' @ strftime dt @ ascii ''.zip'')"
proof -
  have "zip_extension ext \<Longrightarrow> without_extension (stem @ ext) = stem"
    by (simp add: without_extension_def zip_extension_def)
  then show ?thesis
    by (simp add: generate_zip_name_base base_name_def without_extension_def)
qed

text \<open>
  A space, a tab and a no-break space are blank; \<open>pack.zip.ZIP\<close> loses its last
  extension only; \<open>pack\<close> stays.
\<close>

theorem generate_zip_name_blank_and_extension_witness:
  "blank [32, 9, 160] \<and> zip_extension (ascii ''.ZIP'') \<and>
   generate_zip_name \<lparr>year = 2024, month = 11, day = 25, hour = 13, minute = 24, second = 59\<rparr>
     (ascii ''/workspace/demo'') (Some [32, 9, 160]) = ascii ''demo_20241125_132459.zip'' \<and>
   generate_zip_name \<lparr>year = 2024, month = 11, day = 25, hour = 13, minute = 24, second = 59\<rparr>
     (ascii ''/workspace/demo'') (Some (ascii ''pack.zip.ZIP'')) = ascii ''pack.zip_20241125_132459.zip'' \<and>
   generate_zip_name \<lparr>year = 2024, month = 11, day = 25, hour = 13, minute = 24, second = 59\<rparr>
     (ascii ''/workspace/demo'') (Some (ascii ''pack'')) = ascii ''pack_20241125_132459.zip''"
proof -
  let ?t = "\<lparr>year = 2024, month = 11, day = 25, hour = 13, minute = 24, second = 59\<rparr>"
  have bl: "blank [32, 9, 160]" by (simp add: blank_def isspace_def)
  have ze: "zip_extension (ascii ''.ZIP'')"
    by (simp add: zip_extension_def lower_cp_def ascii_def)
  have nb: "\<not> blank (ascii ''pack.zip'' @ ascii ''.ZIP'')"
    by (simp add: blank_def isspace_def ascii_def)
  have nb': "\<not> blank (ascii ''pack'')"
    by (simp add: blank_def isspace_def ascii_def)
  have no: "\<not> (4 \<le> length (ascii ''pack'') \<and>
               zip_extension (drop (length (ascii ''pack'') - 4) (ascii ''pack'')))"
    by (simp add: zip_extension_def lower_cp_def ascii_def)
  have pn: "path_name (ascii ''/workspace/demo'') = ascii ''demo''"
    by (simp add: path_name_def ascii_def)
  have s: "strftime ?t = ascii ''20241125_132459''"
    by (simp add: strftime_def pad4_def pad2_def digit_def ascii_def)
  have cat: "ascii ''pack.zip'' @ ascii ''.ZIP'' = ascii ''pack.zip.ZIP''"
    by (simp add: ascii_def)
  have c1: "ascii ''demo'' @ ascii ''_'' @ ascii ''20241125_132459'' @ ascii ''.zip''
              = ascii ''demo_20241125_132459.zip''"
    by (simp add: ascii_def)
  have c2: "ascii ''pack.zip'' @ ascii ''_'' @ ascii ''20241125_132459'' @ ascii ''.zip''
              = ascii ''pack.zip_20241125_132459.zip''"
    by (simp add: ascii_def)
  have c3: "ascii ''pack'' @ ascii ''_'' @ ascii ''20241125_132459'' @ ascii ''.zip''
              = ascii ''pack_20241125_132459.zip''"
    by (simp add: ascii_def)
  note all = generate_zip_name_blank_and_extension [of _ ?t "ascii ''/workspace/demo''"
      "ascii ''.ZIP''" "ascii ''pack.zip''"]
  have r1: "generate_zip_name ?t (ascii ''/workspace/demo'') (Some [32, 9, 160])
              = ascii ''demo_20241125_132459.zip''"
    using all [of "[32, 9, 160]", THEN conjunct1, THEN mp, OF bl] unfolding pn s c1 .
  have r2: "generate_zip_name ?t (ascii ''/workspace/demo'') (Some (ascii ''pack.zip.ZIP''))
              = ascii ''pack.zip_20241125_132459.zip''"
    using all [of "[]", THEN conjunct2, THEN conjunct2, THEN conjunct1, THEN mp, OF conjI [OF ze nb]]
    unfolding cat s c2 .
  have r3: "generate_zip_name ?t (ascii ''/workspace/demo'') (Some (ascii ''pack''))
              = ascii ''pack_20241125_132459.zip''"
    using all [of "ascii ''pack''", THEN conjunct2, THEN conjunct2, THEN conjunct2, THEN mp,
        OF conjI [OF nb' no]]
    unfolding s c3 .
  from bl ze r1 r2 r3 show ?thesis by (intro conjI)
qed

section \<open>The folder lookup\<close>

lemma first_dir_find: "first_dir isd rp cs = map_option rp (find isd cs)"
  by (induction cs) auto

text \<open>
  C9.  \<open>find_folder\<close> tries a fixed list of candidates in order: the input itself
  when it starts with \<open>/\<close>, otherwise \<open>/\<close> and the input, then the input; after
  these \<open>./\<close> and the input, \<open>../\<close> and the input, and \<open>/workspace/\<close> and the
  input (the input itself when it starts with \<open>/workspace\<close>).  The result is the
  real path of the first candidate that is a directory, and \<open>None\<close> when no
  candidate is one.
\<close>

theorem find_folder_first_candidate:
  "possible_paths p =
     (if startswith p (ascii ''/'') then [p] else [ascii ''/'' @ p, p]) @
     [ascii ''./'' @ p, ascii ''../'' @ p,
      (if startswith p (ascii ''/workspace'') then p else ascii ''/workspace/'' @ p)] \<and>
   (find_folder isd rp p = None \<longleftrightarrow> (\<forall>c \<in> set (possible_paths p). \<not> isd c)) \<and>
   (find_folder isd rp p = Some r \<longleftrightarrow>
      (\<exists>i < length (possible_paths p).
          isd (possible_paths p ! i) \<and> (\<forall>j < i. \<not> isd (possible_paths p ! j)) \<and>
          r = rp (possible_paths p ! i)))"
proof (intro conjI)
  show "possible_paths p =
     (if startswith p (ascii ''/'') then [p] else [ascii ''/'' @ p, p]) @
     [ascii ''./'' @ p, ascii ''../'' @ p,
      (if startswith p (ascii ''/workspace'') then p else ascii ''/workspace/'' @ p)]"
    by (simp add: possible_paths_def)
  show "find_folder isd rp p = None \<longleftrightarrow> (\<forall>c \<in> set (possible_paths p). \<not> isd c)"
    by (auto simp: find_folder_def first_dir_find find_None_iff)
  show "find_folder isd rp p = Some r \<longleftrightarrow>
      (\<exists>i < length (possible_paths p).
          isd (possible_paths p ! i) \<and> (\<forall>j < i. \<not> isd (possible_paths p ! j)) \<and>
          r = rp (possible_paths p ! i))"
    unfolding find_folder_def first_dir_find map_option_eq_Some find_Some_iff by auto
qed

text \<open>
  For the input \<open>demo\<close>, with \<open>../demo\<close> and \<open>/workspace/demo\<close> both directories,
  the fourth candidate wins and its real path is returned.
\<close>

theorem find_folder_first_candidate_witness:
  "possible_paths (ascii ''demo'') =
     [ascii ''/demo'', ascii ''demo'', ascii ''./demo'', ascii ''../demo'', ascii ''/workspace/demo''] \<and>
   find_folder (\<lambda>q. q = ascii ''../demo'' \<or> q = ascii ''/workspace/demo'')
     (\<lambda>q. if q = ascii ''../demo'' then ascii ''/srv/demo'' else q) (ascii ''demo'')
     = Some (ascii ''/srv/demo'') \<and>
   find_folder (\<lambda>q. False) (\<lambda>q. q) (ascii ''demo'') = None"
proof -
  let ?isd = "\<lambda>q. q = ascii ''../demo'' \<or> q = ascii ''/workspace/demo''"
  let ?rp = "\<lambda>q. if q = ascii ''../demo'' then ascii ''/srv/demo'' else q"
  have pp: "possible_paths (ascii ''demo'') =
     [ascii ''/demo'', ascii ''demo'', ascii ''./demo'', ascii ''../demo'', ascii ''/workspace/demo'']"
    using find_folder_first_candidate [of "ascii ''demo''" ?isd ?rp, THEN conjunct1]
    by (simp add: startswith_def ascii_def)
  have none: "find_folder (\<lambda>q. False) (\<lambda>q. q) (ascii ''demo'') = None"
    using find_folder_first_candidate [of "ascii ''demo''" "\<lambda>q. False" "\<lambda>q. q", THEN conjunct2, THEN conjunct1]
    by simp
  have "\<exists>i < length (possible_paths (ascii ''demo'')).
          ?isd (possible_paths (ascii ''demo'') ! i) \<and>
          (\<forall>j < i. \<not> ?isd (possible_paths (ascii ''demo'') ! j)) \<and>
          ascii ''/srv/demo'' = ?rp (possible_paths (ascii ''demo'') ! i)"
    unfolding pp
    by (rule exI [of _ 3]) (simp add: ascii_def less_Suc_eq numeral_3_eq_3)
  then have some: "find_folder ?isd ?rp (ascii ''demo'') = Some (ascii ''/srv/demo'')"
    using find_folder_first_candidate [of "ascii ''demo''" ?isd ?rp "ascii ''/srv/demo''",
        THEN conjunct2, THEN conjunct2]
    by (rule_tac iffD2)
  from pp some none show ?thesis by (intro conjI)
qed

section \<open>The archive\<close>



lemma files_below:
  "mset (map fst (filter (\<lambda>f. is_file (snd f)) (children_of p cs @ descend p cs))) =
     mset (files_in p cs)"
proof (induction p cs rule: descend.induct)
  case (1 p)
  show ?case by (simp add: children_of_def)
next
  case (2 p n cs rest)
  from 2 [symmetric] show ?case
    by (simp add: children_of_def is_file_def ac_simps)
next
  case (3 p n rest)
  from 3 [symmetric] show ?case
    by (simp add: children_of_def is_file_def ac_simps)
next
  case (4 p n rest)
  from 4 [symmetric] show ?case
    by (simp add: children_of_def is_file_def ac_simps)
next
  case (5 p n x rest)
  from 5 [symmetric] show ?case
    by (simp add: children_of_def ac_simps)
qed

lemma files_rglob:
  "mset (map fst (filter (\<lambda>f. is_file (snd f)) (rglob root))) = mset (files_in [] root)"
  using files_below [of "[]" root] by (simp add: rglob_def)

lemma count_files_rglob:
  "length (filter (\<lambda>f. is_file (snd f)) (rglob root)) = length (files_in [] root)"
  using files_rglob [of root, THEN mset_eq_length] by simp

















text \<open>
  C8.  A folder without any regular file, at whatever depth, is refused: the count
  that guards the archive counts regular files only, so \<open>create_zip\<close> returns false
  before it opens the archive, also when the folder holds directories.
\<close>

theorem create_zip_no_files:
  assumes "files_in [] root = []"
  shows "create_zip io root = (False, None)"
proof -
  have "length (filter (\<lambda>f. is_file (snd f)) (rglob root)) = 0"
    using assms by (simp only: count_files_rglob) simp
  then show ?thesis by (simp add: create_zip_def Let_def)
qed

text \<open>A folder that holds two directories and a socket, and no file.\<close>

theorem create_zip_no_files_witness:
  "files_in [] [(ascii ''x'', Dir []), (ascii ''y'', Dir [(ascii ''z'', Dir [])]),
                (ascii ''s'', Other)] = [] \<and>
   create_zip plain_io
     [(ascii ''x'', Dir []), (ascii ''y'', Dir [(ascii ''z'', Dir [])]), (ascii ''s'', Other)]
     = (False, None)"
proof -
  have h: "files_in [] [(ascii ''x'', Dir []), (ascii ''y'', Dir [(ascii ''z'', Dir [])]),
                (ascii ''s'', Other)] = []"
    by simp
  from h create_zip_no_files [OF h] show ?thesis by (intro conjI)
qed

section \<open>The upload\<close>

text \<open>
  C7.  \<open>upload_to_hf\<close> first asks the registry for the destination; it creates the
  destination exactly when that request fails, and reuses it otherwise.  When the
  destination exists or has been created, the archive is uploaded in one
  \<open>upload_file\<close> call, under its file name and with a commit message that ends in
  this file name; the result is what that call returns.  When the creation fails,
  nothing is uploaded and the result is \<open>None\<close>.
\<close>

theorem upload_to_hf_calls:
  "hd (snd (upload_to_hf api zp repo tok)) = RepoInfo repo \<and>
   (CreateRepo repo \<in> set (snd (upload_to_hf api zp repo tok)) \<longleftrightarrow> \<not> repo_info api repo tok) \<and>
   uploads (snd (upload_to_hf api zp repo tok)) =
     (if repo_info api repo tok \<or> create_repo api repo tok
      then [\<lparr>path_or_fileobj = zp, path_in_repo = basename zp, to_repo = repo,
              with_token = tok, commit_message = upload_message (basename zp)\<rparr>]
      else []) \<and>
   fst (upload_to_hf api zp repo tok) =
     (if repo_info api repo tok \<or> create_repo api repo tok
      then upload_file api \<lparr>path_or_fileobj = zp, path_in_repo = basename zp, to_repo = repo,
              with_token = tok, commit_message = upload_message (basename zp)\<rparr>
      else None) \<and>
   (\<exists>pre. upload_message (basename zp) = pre @ basename zp)"
proof -
  have "\<exists>pre. upload_message (basename zp) = pre @ basename zp"
    unfolding upload_message_def by (metis append.assoc)
  then show ?thesis
    by (simp add: upload_to_hf_def Let_def)
qed

text \<open>An absent destination \<open>alice/packs\<close>: one request, one creation, one upload.\<close>

theorem upload_to_hf_calls_witness:
  "upload_to_hf example_hub (ascii ''/tmp/t1/pack_20241125_132459.zip'') (ascii ''alice/packs'')
     (ascii ''hf_secret'') =
     (Some (ascii ''https://huggingface.co/alice/packs/blob/main/pack_20241125_132459.zip''),
      [RepoInfo (ascii ''alice/packs''), CreateRepo (ascii ''alice/packs''),
       UploadFile \<lparr>path_or_fileobj = ascii ''/tmp/t1/pack_20241125_132459.zip'',
                   path_in_repo = ascii ''pack_20241125_132459.zip'',
                   to_repo = ascii ''alice/packs'', with_token = ascii ''hf_secret'',
                   commit_message = ascii ''Upload autom'' @ [225] @
                      ascii ''tico: pack_20241125_132459.zip''\<rparr>])"
proof -
  let ?zp = "ascii ''/tmp/t1/pack_20241125_132459.zip''"
  have b: "basename ?zp = ascii ''pack_20241125_132459.zip''"
    by (simp add: basename_def ascii_def)
  have m: "upload_message (ascii ''pack_20241125_132459.zip'') =
             ascii ''Upload autom'' @ [225] @ ascii ''tico: pack_20241125_132459.zip''"
    by (simp add: upload_message_def ascii_def)
  have t: "snd (upload_to_hf example_hub ?zp (ascii ''alice/packs'') (ascii ''hf_secret'')) =
      [RepoInfo (ascii ''alice/packs''), CreateRepo (ascii ''alice/packs''),
       UploadFile \<lparr>path_or_fileobj = ?zp,
                   path_in_repo = ascii ''pack_20241125_132459.zip'',
                   to_repo = ascii ''alice/packs'', with_token = ascii ''hf_secret'',
                   commit_message = ascii ''Upload autom'' @ [225] @
                      ascii ''tico: pack_20241125_132459.zip''\<rparr>]"
    unfolding upload_to_hf_def Let_def b m by (simp add: example_hub_def)
  have "fst (upload_to_hf example_hub ?zp (ascii ''alice/packs'') (ascii ''hf_secret'')) =
      Some (ascii ''https://huggingface.co/alice/packs/blob/main/pack_20241125_132459.zip'')"
    using upload_to_hf_calls [of example_hub ?zp "ascii ''alice/packs''" "ascii ''hf_secret''"]
    unfolding b by (simp add: example_hub_def) (simp add: ascii_def)
  with t show ?thesis by (simp add: prod_eq_iff)
qed

section \<open>The run of the node\<close>

lemma startswith_marker: "startswith (failure_message f) marker"
  by (cases f) (simp_all add: startswith_def marker_def)






lemma example_find: "find_folder (isdir example_env) (realpath example_env) (ascii ''demo'')
   = Some (ascii ''/workspace/demo'')"
  by (simp add: find_folder_def possible_paths_def example_env_def startswith_def ascii_def)

lemma example_find_void: "find_folder (isdir example_env) (realpath example_env) (ascii ''void'')
   = Some (ascii ''/workspace/void'')"
  by (simp add: find_folder_def possible_paths_def example_env_def startswith_def ascii_def)

lemma example_name: "generate_zip_name (now example_env) (ascii ''/workspace/demo'') (Some [])
   = ascii ''demo_20241125_132459.zip''"
  by (simp add: generate_zip_name_def example_env_def path_name_def strftime_def pad4_def pad2_def
        digit_def ascii_def)

lemma example_name_void: "generate_zip_name (now example_env) (ascii ''/workspace/void'') (Some [])
   = ascii ''void_20241125_132459.zip''"
  by (simp add: generate_zip_name_def example_env_def path_name_def strftime_def pad4_def pad2_def
        digit_def ascii_def)

lemma example_join: "path_join (ascii ''/tmp/t1'') (ascii ''demo_20241125_132459.zip'')
   = ascii ''/tmp/t1/demo_20241125_132459.zip''"
  by (simp add: path_join_def startswith_def endswith_def ascii_def)

lemma example_join_void: "path_join (ascii ''/tmp/t1'') (ascii ''void_20241125_132459.zip'')
   = ascii ''/tmp/t1/void_20241125_132459.zip''"
  by (simp add: path_join_def startswith_def endswith_def ascii_def)

lemma example_zip: "fst (create_zip plain_io example_folder)"
  by (simp add: create_zip_def example_folder_def plain_io_def unchanged_def rglob_def
        children_of_def is_file_def is_dir_def iterdir_def)

lemma example_upload:
  "upload_to_hf example_hub (ascii ''/tmp/t1/demo_20241125_132459.zip'') (ascii ''alice/packs'') tok =
     (Some (ascii ''https://huggingface.co/alice/packs/blob/main/demo_20241125_132459.zip''),
      [RepoInfo (ascii ''alice/packs''), CreateRepo (ascii ''alice/packs''),
       UploadFile \<lparr>path_or_fileobj = ascii ''/tmp/t1/demo_20241125_132459.zip'',
                   path_in_repo = ascii ''demo_20241125_132459.zip'',
                   to_repo = ascii ''alice/packs'', with_token = tok,
                   commit_message = upload_message (ascii ''demo_20241125_132459.zip'')\<rparr>])"
proof -
  have b: "basename (ascii ''/tmp/t1/demo_20241125_132459.zip'') = ascii ''demo_20241125_132459.zip''"
    by (simp add: basename_def ascii_def)
  show ?thesis
    unfolding upload_to_hf_def Let_def b by (simp add: example_hub_def) (simp add: ascii_def)
qed

lemma example_repo: "validate_repo (ascii ''alice/packs'')"
  by (simp add: validate_repo_def contains_def ascii_def)

lemma example_run:
  assumes "tok \<noteq> []"
  shows "upload_folder example_env tok (ascii ''alice/packs'') (ascii ''demo'') [] =
     (Inr (ascii ''https://huggingface.co/alice/packs/blob/main/demo_20241125_132459.zip''),
      [PipInstall, FindFolder (ascii ''demo''), MakeTempDir,
       CreateZip (ascii ''/workspace/demo'') (ascii ''/tmp/t1/demo_20241125_132459.zip''),
       RepoInfo (ascii ''alice/packs''), CreateRepo (ascii ''alice/packs''),
       UploadFile \<lparr>path_or_fileobj = ascii ''/tmp/t1/demo_20241125_132459.zip'',
                   path_in_repo = ascii ''demo_20241125_132459.zip'',
                   to_repo = ascii ''alice/packs'', with_token = tok,
                   commit_message = upload_message (ascii ''demo_20241125_132459.zip'')\<rparr>])"
proof -
  have i: "install_dependencies example_env = (Inr example_hub, [PipInstall])"
    by (simp add: install_dependencies_def example_env_def)
  have t: "fst (validate_token tok)" using assms by (simp add: validate_token_def)
  have d: "ascii ''/workspace/demo'' \<noteq> []" by (simp add: ascii_def)
  have td: "temp_dir example_env = Inr (ascii ''/tmp/t1'')" by (simp add: example_env_def)
  have c: "contents example_env (ascii ''/workspace/demo'') = example_folder"
    by (simp add: example_env_def)
  have z: "fst (create_zip (zip_io_at example_env (ascii ''/workspace/demo'')
             (ascii ''/tmp/t1/demo_20241125_132459.zip'')) example_folder)"
    using example_zip by (simp add: example_env_def)
  have u: "ascii ''https://huggingface.co/alice/packs/blob/main/demo_20241125_132459.zip'' \<noteq> []"
    by (simp add: ascii_def)
  show ?thesis
    unfolding upload_folder_def i prod.case sum.case Let_def example_find option.case
      example_name td example_join c example_upload
    using t d z u example_repo by simp
qed





lemma upload_folder_token_ok:
  assumes "fst (validate_token token)"
  shows "fst (upload_folder e token repo fp zn) \<noteq> Inl TokenInvalid"
  using assms
  by (simp add: upload_folder_def Let_def split: prod.splits sum.splits option.splits)

lemma upload_folder_empty_token:
  "fst (upload_folder e [] repo fp zn) =
     (if hub_importable e \<or> pip_error e = None then Inl TokenInvalid
      else Inl (DepsError (the (pip_error e))))"
  by (simp add: upload_folder_def install_dependencies_def validate_token_def
        split: option.splits)

text \<open>
  C4.  A credential that is not empty is never fatal, also when it is short or
  lacks the prefix: \<open>validate_token\<close> returns true, all it prints are warnings
  (one for a missing \<open>hf_\<close> prefix, one for a length below twenty), and
  \<open>upload_folder\<close> does not return the invalid-token failure.  The empty
  credential is fatal: \<open>validate_token\<close> returns false, and \<open>upload_folder\<close>
  returns a failure, which is the invalid-token failure when the dependency step
  has succeeded and the failure of the dependency step otherwise.
\<close>

theorem validate_token_warns_only:
  "(token \<noteq> [] \<longrightarrow>
      fst (validate_token token) = True \<and>
      list_all is_warning (snd (validate_token token)) \<and>
      (\<not> startswith token (ascii ''hf_'') \<longrightarrow> WarnPrefix \<in> set (snd (validate_token token))) \<and>
      (length token < 20 \<longrightarrow> WarnShort \<in> set (snd (validate_token token))) \<and>
      fst (upload_folder e token repo fp zn) \<noteq> Inl TokenInvalid) \<and>
   (token = [] \<longrightarrow>
      validate_token token = (False, [TokenNotProvided]) \<and>
      (\<exists>f. fst (upload_folder e token repo fp zn) = Inl f) \<and>
      (hub_importable e \<or> pip_error e = None \<longrightarrow>
         fst (upload_folder e token repo fp zn) = Inl TokenInvalid) \<and>
      (\<not> hub_importable e \<and> pip_error e = Some msg \<longrightarrow>
         fst (upload_folder e token repo fp zn) = Inl (DepsError msg)))"
proof (intro conjI impI)
  assume ne: "token \<noteq> []"
  then have t: "fst (validate_token token)" by (simp add: validate_token_def)
  from t show "fst (validate_token token) = True" by simp
  from ne show "list_all is_warning (snd (validate_token token))"
    by (simp add: validate_token_def is_warning_def)
  show "fst (upload_folder e token repo fp zn) \<noteq> Inl TokenInvalid"
    by (rule upload_folder_token_ok [OF t])
  {
    assume "\<not> startswith token (ascii ''hf_'')"
    with ne show "WarnPrefix \<in> set (snd (validate_token token))"
      by (simp add: validate_token_def)
  }
  {
    assume "length token < 20"
    with ne show "WarnShort \<in> set (snd (validate_token token))"
      by (simp add: validate_token_def)
  }
next
  assume e: "token = []"
  show "validate_token token = (False, [TokenNotProvided])"
    unfolding e by (simp add: validate_token_def)
  show "\<exists>f. fst (upload_folder e token repo fp zn) = Inl f"
    unfolding e upload_folder_empty_token by simp
  {
    assume "hub_importable e \<or> pip_error e = None"
    then show "fst (upload_folder e token repo fp zn) = Inl TokenInvalid"
      unfolding e upload_folder_empty_token by simp
  }
  {
    assume "\<not> hub_importable e \<and> pip_error e = Some msg"
    then show "fst (upload_folder e token repo fp zn) = Inl (DepsError msg)"
      unfolding e upload_folder_empty_token by simp
  }
qed

text \<open>
  The credential \<open>abc\<close> draws both warnings and the run goes on to the upload.
  The empty credential ends the run with the invalid-token failure where the
  library can be installed, and with the failure of the installation where it
  cannot.
\<close>

theorem validate_token_warns_only_witness:
  "ascii ''abc'' \<noteq> [] \<and>
   validate_token (ascii ''abc'') = (True, [WarnPrefix, WarnShort]) \<and>
   fst (upload_folder example_env (ascii ''abc'') (ascii ''alice/packs'') (ascii ''demo'') []) =
     Inr (ascii ''https://huggingface.co/alice/packs/blob/main/demo_20241125_132459.zip'') \<and>
   fst (upload_folder example_env (ascii ''abc'') (ascii ''alice/packs'') (ascii ''demo'') []) \<noteq>
     Inl TokenInvalid \<and>
   pip_error example_env = None \<and>
   fst (upload_folder example_env [] (ascii ''alice/packs'') (ascii ''demo'') []) =
     Inl TokenInvalid \<and>
   \<not> hub_importable broken_env \<and> pip_error broken_env = Some (ascii ''pip failed'') \<and>
   fst (upload_folder broken_env [] (ascii ''alice/packs'') (ascii ''demo'') []) =
     Inl (DepsError (ascii ''pip failed''))"
proof -
  have h: "ascii ''abc'' \<noteq> []" by (simp add: ascii_def)
  have v: "validate_token (ascii ''abc'') = (True, [WarnPrefix, WarnShort])"
    by (simp add: validate_token_def startswith_def ascii_def)
  have r: "fst (upload_folder example_env (ascii ''abc'') (ascii ''alice/packs'') (ascii ''demo'') []) =
     Inr (ascii ''https://huggingface.co/alice/packs/blob/main/demo_20241125_132459.zip'')"
    by (simp add: example_run [OF h])
  note w = validate_token_warns_only [of "ascii ''abc''" example_env "ascii ''alice/packs''"
      "ascii ''demo''" "[]", THEN conjunct1, THEN mp, OF h]
  from w have n: "fst (upload_folder example_env (ascii ''abc'') (ascii ''alice/packs'') (ascii ''demo'') []) \<noteq>
     Inl TokenInvalid"
    by (elim conjE)
  have g: "pip_error example_env = None" by (simp add: example_env_def)
  then have g': "hub_importable example_env \<or> pip_error example_env = None" by (rule disjI2)
  have e: "([]::ustr) = []" by (rule refl)
  note w1 = validate_token_warns_only [of "[]" example_env "ascii ''alice/packs''"
      "ascii ''demo''" "[]", THEN conjunct2, THEN mp, OF e]
  have i: "fst (upload_folder example_env [] (ascii ''alice/packs'') (ascii ''demo'') []) =
     Inl TokenInvalid"
    by (rule w1 [THEN conjunct2, THEN conjunct2, THEN conjunct1, THEN mp, OF g'])
  have b1: "\<not> hub_importable broken_env" by (simp add: broken_env_def example_env_def)
  have b2: "pip_error broken_env = Some (ascii ''pip failed'')"
    by (simp add: broken_env_def)
  note w2 = validate_token_warns_only [of "[]" broken_env "ascii ''alice/packs''"
      "ascii ''demo''" "[]" "ascii ''pip failed''", THEN conjunct2, THEN mp, OF e]
  have j: "fst (upload_folder broken_env [] (ascii ''alice/packs'') (ascii ''demo'') []) =
     Inl (DepsError (ascii ''pip failed''))"
    by (rule w2 [THEN conjunct2, THEN conjunct2, THEN conjunct2, THEN mp, OF conjI [OF b1 b2]])
  from h v r n g i b1 b2 j show ?thesis by (intro conjI)
qed

text \<open>The empty credential is fatal: the run ends with the invalid-token failure.\<close>

theorem empty_token_is_fatal:
  "fst (validate_token []) = False \<and>
   upload_folder example_env [] (ascii ''alice/packs'') (ascii ''demo'') [] =
     (Inl TokenInvalid, [PipInstall])"
proof -
  have i: "install_dependencies example_env = (Inr example_hub, [PipInstall])"
    by (simp add: install_dependencies_def example_env_def)
  have t: "fst (validate_token []) = False" by (simp add: validate_token_def)
  have "upload_folder example_env [] (ascii ''alice/packs'') (ascii ''demo'') [] =
     (Inl TokenInvalid, [PipInstall])"
    unfolding upload_folder_def i prod.case sum.case using t by simp
  with t show ?thesis by (intro conjI)
qed

lemma create_zip_empty: "create_zip io [] = (False, None)"
  by (simp add: create_zip_def rglob_def children_of_def)

lemma uploads_none: "\<not> list_ex registry_call evs \<Longrightarrow> uploads evs = []"
  by (induction evs rule: uploads.induct) simp_all

lemma install_no_registry: "\<not> list_ex registry_call (snd (install_dependencies e))"
  by (simp add: install_dependencies_def split: option.splits)

lemma upload_folder_empty:
  assumes "find_folder (isdir e) (realpath e) fp = Some folder" and "contents e folder = []"
  shows "upload_folder e tok repo fp zn =
     (case install_dependencies e of
        (Inl msg, t0) \<Rightarrow> (Inl (DepsError msg), t0)
      | (Inr api, t0) \<Rightarrow>
          if \<not> fst (validate_token tok) then (Inl TokenInvalid, t0)
          else if \<not> validate_repo repo then (Inl RepoInvalid, t0)
          else if folder = [] then (Inl FolderNotFound, t0 @ [FindFolder fp])
          else (case temp_dir e of
                  Inl msg \<Rightarrow> (Inl (ProcessError msg), t0 @ [FindFolder fp, MakeTempDir])
                | Inr dir \<Rightarrow>
                    (Inl ZipFailed,
                     t0 @ [FindFolder fp, MakeTempDir,
                           CreateZip folder
                             (path_join dir (generate_zip_name (now e) folder (Some zn)))])))"
  unfolding upload_folder_def Let_def assms option.case create_zip_empty
  by (simp split: prod.splits sum.splits)

text \<open>
  C6.  For an empty source folder \<open>create_zip\<close> returns false and leaves no
  archive, and \<open>upload_folder\<close> returns a failure string: no call reaches the
  registry and nothing is uploaded.  When the earlier steps pass, the failure is the
  one of the archive creation.
\<close>

theorem upload_folder_empty_folder:
  assumes "find_folder (isdir e) (realpath e) fp = Some folder" and "contents e folder = []"
  shows "create_zip io [] = (False, None) \<and>
         (\<exists>f. fst (upload_folder e tok repo fp zn) = Inl f) \<and>
         startswith (returned_string (fst (upload_folder e tok repo fp zn))) marker \<and>
         \<not> list_ex registry_call (snd (upload_folder e tok repo fp zn)) \<and>
         uploads (snd (upload_folder e tok repo fp zn)) = [] \<and>
         (fst (install_dependencies e) = Inr (hub e) \<and> tok \<noteq> [] \<and> validate_repo repo \<and>
          folder \<noteq> [] \<and> temp_dir e = Inr dir \<longrightarrow>
            fst (upload_folder e tok repo fp zn) = Inl ZipFailed)"
proof -
  note u = upload_folder_empty [OF assms, of tok repo zn]
  obtain r t0 where i: "install_dependencies e = (r, t0)" by (cases "install_dependencies e")
  have n0: "\<not> list_ex registry_call t0" using install_no_registry [of e] unfolding i by simp
  have f: "\<exists>f. fst (upload_folder e tok repo fp zn) = Inl f"
    unfolding u i by (simp split: sum.splits)
  then have m: "startswith (returned_string (fst (upload_folder e tok repo fp zn))) marker"
    by (auto simp: returned_string_def startswith_marker)
  have n: "\<not> list_ex registry_call (snd (upload_folder e tok repo fp zn))"
    unfolding u i using n0 by (simp split: sum.splits)
  have z: "fst (install_dependencies e) = Inr (hub e) \<and> tok \<noteq> [] \<and> validate_repo repo \<and>
          folder \<noteq> [] \<and> temp_dir e = Inr dir \<longrightarrow>
            fst (upload_folder e tok repo fp zn) = Inl ZipFailed"
    unfolding u i by (simp add: validate_token_def)
  from create_zip_empty f m n uploads_none [OF n] z show ?thesis by (intro conjI)
qed

text \<open>The empty folder \<open>/workspace/void\<close>: the run stops after \<open>create_zip\<close>.\<close>

theorem upload_folder_empty_folder_witness:
  "find_folder (isdir example_env) (realpath example_env) (ascii ''void'')
     = Some (ascii ''/workspace/void'') \<and>
   contents example_env (ascii ''/workspace/void'') = [] \<and>
   upload_folder example_env (ascii ''hf_token'') (ascii ''alice/packs'') (ascii ''void'') [] =
     (Inl ZipFailed,
      [PipInstall, FindFolder (ascii ''void''), MakeTempDir,
       CreateZip (ascii ''/workspace/void'') (ascii ''/tmp/t1/void_20241125_132459.zip'')])"
proof -
  have c: "contents example_env (ascii ''/workspace/void'') = []"
    by (simp add: example_env_def ascii_def)
  have i: "install_dependencies example_env = (Inr example_hub, [PipInstall])"
    by (simp add: install_dependencies_def example_env_def)
  have h: "fst (install_dependencies example_env) = Inr (hub example_env) \<and>
           ascii ''hf_token'' \<noteq> [] \<and> validate_repo (ascii ''alice/packs'') \<and>
           ascii ''/workspace/void'' \<noteq> [] \<and> temp_dir example_env = Inr (ascii ''/tmp/t1'')"
    using example_repo by (simp add: i) (simp add: example_env_def ascii_def)
  note w = upload_folder_empty_folder [OF example_find_void c,
      where io = plain_io and tok = "ascii ''hf_token''"
        and repo = "ascii ''alice/packs''" and zn = "[]" and dir = "ascii ''/tmp/t1''"]
  have f: "fst (upload_folder example_env (ascii ''hf_token'') (ascii ''alice/packs'')
             (ascii ''void'') []) = Inl ZipFailed"
    by (rule w [THEN conjunct2, THEN conjunct2, THEN conjunct2, THEN conjunct2, THEN conjunct2,
          THEN mp, OF h])
  have t: "snd (upload_folder example_env (ascii ''hf_token'') (ascii ''alice/packs'')
             (ascii ''void'') []) =
      [PipInstall, FindFolder (ascii ''void''), MakeTempDir,
       CreateZip (ascii ''/workspace/void'') (ascii ''/tmp/t1/void_20241125_132459.zip'')]"
    unfolding upload_folder_empty [OF example_find_void c] i prod.case sum.case
      example_name_void
    using h by (simp add: validate_token_def example_join_void)
  from f t have "upload_folder example_env (ascii ''hf_token'') (ascii ''alice/packs'') (ascii ''void'') [] =
     (Inl ZipFailed,
      [PipInstall, FindFolder (ascii ''void''), MakeTempDir,
       CreateZip (ascii ''/workspace/void'') (ascii ''/tmp/t1/void_20241125_132459.zip'')])"
    by (simp add: prod_eq_iff)
  with example_find_void c show ?thesis by (intro conjI)
qed

text \<open>
  A direct call of \<open>upload_folder\<close> returns one string: a failure message that
  starts with the marker, or the non-empty URL of the upload.
\<close>

lemma upload_folder_direct_call:
  "(\<exists>f. fst (upload_folder e tok repo fp zn) = Inl f \<and>
        startswith (returned_string (fst (upload_folder e tok repo fp zn))) marker) \<or>
   (\<exists>url. fst (upload_folder e tok repo fp zn) = Inr url \<and> url \<noteq> [] \<and>
        returned_string (fst (upload_folder e tok repo fp zn)) = url)"
proof (cases "fst (upload_folder e tok repo fp zn)")
  case (Inl f)
  then show ?thesis by (simp add: returned_string_def startswith_marker)
next
  case (Inr url)
  then have "url \<noteq> []"
    by (auto simp: upload_folder_def Let_def split: prod.splits sum.splits option.splits if_splits)
  with Inr show ?thesis by (simp add: returned_string_def)
qed

text \<open>
  C5.  The contract declares four string inputs and four trigger inputs and one
  string output.  \<open>INPUT_TYPES\<close> names \<open>trigger_image_4\<close>, the signature of
  \<open>upload_folder\<close> stops at \<open>trigger_image_3\<close>: the call with the declared
  inputs raises \<open>TypeError\<close> for the unexpected keyword, and no string is returned.
\<close>

theorem execute_raises_type_error:
  "execute e hf_token repo_id folder_path zip_name = Inl TypeError"
  by (simp add: execute_def bind_keywords_def host_kwargs_def INPUT_TYPES_required_def
        upload_folder_params_def)

end
